theory Spec2Isabelle
  imports Main
begin

section \<open>Data model\<close>

text \<open>
  Python \<open>str\<close> values are modelled as \<open>string\<close>; one \<open>char\<close> stands for one
  character of the Python string, which is what the length constraints of
  \<open>schemas.py\<close> count. Points in time and durations are whole seconds.
\<close>

type_synonym datetime = int
type_synonym timedelta = int

definition timedelta_hours :: "int \<Rightarrow> timedelta" where
  "timedelta_hours h = h * 3600"

definition timedelta_minutes :: "int \<Rightarrow> timedelta" where
  "timedelta_minutes m = m * 60"

text \<open>Values that travel in request and response bodies and in token claims.\<close>

datatype json =
    JNull
  | JBool bool
  | JInt int
  | JStr string
  | JDateTime datetime
  | JArr "json list"
  | JObj "(string \<times> json) list"

text \<open>Every key of every object inside a JSON value, outermost first.\<close>

fun json_keys :: "json \<Rightarrow> string list" where
  "json_keys (JArr xs) = concat (map json_keys xs)"
| "json_keys (JObj kvs) = concat (map (\<lambda>(k, v). k # json_keys v) kvs)"
| "json_keys _ = []"

text \<open>
  Modelled from the spec: \<open>models.py\<close> (the \<open>User\<close> table) is not among the
  sources. The columns are the attributes \<open>main.py\<close> reads and writes; the
  spec gives the unique numeric identifier, the active flag defaulting to true and
  the server-assigned creation timestamp.
\<close>

record user =
  id' :: int
  email :: string
  username :: string
  hashed_password :: string
  full_name :: string
  is_active :: bool
  created_at :: datetime

text \<open>\<open>schemas.py\<close>\<close>

record UserRegister =
  email :: string
  username :: string
  password :: string
  full_name :: string

record UserLogin =
  username :: string
  password :: string

record Token =
  access_token :: string
  token_type :: string
  message :: string

record UserResponse =
  id' :: int
  email :: string
  username :: string
  full_name :: string
  is_active :: bool

text \<open>\<open>config.py\<close>\<close>

record Settings =
  APP_NAME :: string
  APP_VERSION :: string
  SECRET_KEY :: string
  ALGORITHM :: string
  ACCESS_TOKEN_EXPIRE_MINUTES :: int
  DATABASE_URL :: string
  ENVIRONMENT :: string
  DEBUG :: bool

text \<open>
  What the process environment (or the \<open>.env\<close> file) supplies for each setting,
  already read at the setting's type; \<open>None\<close> where the variable is not set.
\<close>

record environ =
  env_APP_NAME :: "string option"
  env_APP_VERSION :: "string option"
  env_SECRET_KEY :: "string option"
  env_ALGORITHM :: "string option"
  env_ACCESS_TOKEN_EXPIRE_MINUTES :: "int option"
  env_DATABASE_URL :: "string option"
  env_ENVIRONMENT :: "string option"
  env_DEBUG :: "bool option"

definition or_default :: "'a option \<Rightarrow> 'a \<Rightarrow> 'a" where
  "or_default v d = (case v of None \<Rightarrow> d | Some x \<Rightarrow> x)"

text \<open>
  \<open>settings = Settings()\<close>: the two settings without a default are required, the
  others fall back to the value written in the class. \<open>None\<close> is the validation
  error that stops the process at import.
\<close>

definition Settings_init :: "environ \<Rightarrow> Settings option" where
  "Settings_init e =
     (case env_SECRET_KEY e of
        None \<Rightarrow> None
      | Some key \<Rightarrow>
          (case env_DATABASE_URL e of
             None \<Rightarrow> None
           | Some url \<Rightarrow>
               Some \<lparr>APP_NAME = or_default (env_APP_NAME e) ''Simple Auth API'',
                     APP_VERSION = or_default (env_APP_VERSION e) ''1.0.0'',
                     SECRET_KEY = key,
                     ALGORITHM = or_default (env_ALGORITHM e) ''HS256'',
                     ACCESS_TOKEN_EXPIRE_MINUTES =
                       or_default (env_ACCESS_TOKEN_EXPIRE_MINUTES e) 1440,
                     DATABASE_URL = url,
                     ENVIRONMENT = or_default (env_ENVIRONMENT e) ''production'',
                     DEBUG = or_default (env_DEBUG e) False\<rparr>))"

section \<open>Exceptions, responses and the call log\<close>

datatype exn =
    HTTPException nat string
  | IntegrityError
  | DBAPIError

record response =
  status_code :: nat
  body :: json

text \<open>
  How the framework answers when a handler raises: an \<open>HTTPException\<close> becomes
  its status with the detail in the body, anything else the plain 500 page.
\<close>

fun exception_response :: "exn \<Rightarrow> response" where
  "exception_response (HTTPException s d) =
     \<lparr>status_code = s, body = JObj [(''detail'', JStr d)]\<rparr>"
| "exception_response _ =
     \<lparr>status_code = 500, body = JStr ''Internal Server Error''\<rparr>"

text \<open>
  The calls a handler makes on its collaborators, in the order it makes them. The
  handlers below return this log beside their result, so that the order of the
  source's statements can be stated.
\<close>

datatype event =
    Validate_body
  | Query_first_by_email string
  | Query_first_by_username string
  | Call_hash_password string
  | Call_verify_password string string
  | Call_create_access_token "(string \<times> json) list" timedelta
  | Db_add
  | Db_commit
  | Db_refresh
  | Query_offset_limit_all int int
  | Query_count

section \<open>The user store\<close>

text \<open>
  The table is the list of its rows in insertion order, with the next value of the
  identifier sequence.
\<close>

record db =
  rows :: "user list"
  next_id :: int

definition first_by_email :: "string \<Rightarrow> db \<Rightarrow> user option" where
  "first_by_email e d = find (\<lambda>u. user.email u = e) (rows d)"

definition first_by_username :: "string \<Rightarrow> db \<Rightarrow> user option" where
  "first_by_username n d = find (\<lambda>u. user.username u = n) (rows d)"

text \<open>
  The collaborators of \<open>main.py\<close> that are not among the sources (\<open>auth.py\<close>,
  \<open>models.py\<close>, the e-mail validator behind \<open>EmailStr\<close>, the database engine),
  taken as parameters, together with the loaded settings.
  \<^item> \<open>create_access_token\<close> is given the settings it reads beside the two
    arguments of the call.
  \<^item> \<open>EmailStr\<close> gives the validated address, or \<open>None\<close> for a string that is
    not an e-mail address.
  \<^item> \<open>unique_constraint\<close> says whether the table itself rejects a second row with
    the same e-mail address or username.
  \<^item> \<open>negative_window\<close> is what the engine does with a negative \<open>OFFSET\<close> or
    \<open>LIMIT\<close>.
  \<^item> \<open>heap_position\<close> is where the engine keeps a row: a query without
    \<open>order_by\<close> reads the rows by position, which need not be the order of
    insertion.
  \<^item> \<open>EmailStr_reason\<close> is the validator's explanation for a string it refuses.
  \<^item> \<open>parse_int\<close> is the framework's reading of a query parameter as an integer.
\<close>

record deps =
  settings :: Settings
  EmailStr :: "string \<Rightarrow> string option"
  hash_password :: "string \<Rightarrow> string"
  verify_password :: "string \<Rightarrow> string \<Rightarrow> bool"
  create_access_token :: "Settings \<Rightarrow> (string \<times> json) list \<Rightarrow> timedelta \<Rightarrow> string"
  unique_constraint :: bool
  negative_window :: "int \<Rightarrow> int \<Rightarrow> user list \<Rightarrow> exn + user list"
  heap_position :: "user \<Rightarrow> int"
  EmailStr_reason :: "string \<Rightarrow> string"
  parse_int :: "string \<Rightarrow> int option"

section \<open>Login\<close>

text \<open>\<open>login\<close>, \<open>main.py\<close> lines 89 to 126.\<close>

definition login ::
  "deps \<Rightarrow> UserLogin \<Rightarrow> db \<Rightarrow> (exn + Token) \<times> event list" where
  "login D credentials d =
     (let q = Query_first_by_username (UserLogin.username credentials) in
      case first_by_username (UserLogin.username credentials) d of
        None \<Rightarrow> (Inl (HTTPException 401 ''Invalid username or password''), [q])
      | Some user \<Rightarrow>
          (let v = Call_verify_password (UserLogin.password credentials)
                     (hashed_password user) in
           if \<not> verify_password D (UserLogin.password credentials) (hashed_password user)
           then (Inl (HTTPException 401 ''Invalid username or password''), [q, v])
           else if \<not> user.is_active user
           then (Inl (HTTPException 403 ''Account is disabled''), [q, v])
           else
             (let data = [(''user_id'', JInt (user.id' user)),
                          (''username'', JStr (user.username user))];
                  expires_delta = timedelta_hours 24;
                  access_token = create_access_token D (settings D) data expires_delta
              in (Inr \<lparr>access_token = access_token,
                        token_type = ''bearer'',
                        message = ''Welcome back, '' @ user.username user @ ''!''\<rparr>,
                  [q, v, Call_create_access_token data expires_delta]))))"

definition Token_json :: "Token \<Rightarrow> json" where
  "Token_json t =
     JObj [(''access_token'', JStr (access_token t)),
           (''token_type'', JStr (token_type t)),
           (''message'', JStr (message t))]"

text \<open>
  \<open>POST /login\<close>: the body is a \<open>UserLogin\<close> (two strings, no further
  constraint), the result is rendered through \<open>response_model=Token\<close>.
\<close>

definition post_login :: "deps \<Rightarrow> UserLogin \<Rightarrow> db \<Rightarrow> response" where
  "post_login D credentials d =
     (case fst (login D credentials d) of
        Inl e \<Rightarrow> exception_response e
      | Inr t \<Rightarrow> \<lparr>status_code = 200, body = Token_json t\<rparr>)"

section \<open>Request validation\<close>

text \<open>
  One entry of the \<open>detail\<close> list of a 422 answer: the kind of error, the place
  of the offending value in the request, the message, the offending value itself
  as the client sent it, and the context some kinds add.
\<close>

record validation_error =
  err_type :: string
  loc :: "string list"
  msg :: string
  input :: json
  ctx :: "(string \<times> json) list"

definition error_json :: "validation_error \<Rightarrow> json" where
  "error_json e =
     JObj ([(''type'', JStr (err_type e)),
            (''loc'', JArr (map JStr (loc e))),
            (''msg'', JStr (msg e)),
            (''input'', input e)] @
           (if ctx e = [] then [] else [(''ctx'', JObj (ctx e))]))"

text \<open>The framework's answer to a request that fails validation.\<close>

definition validation_response :: "validation_error list \<Rightarrow> response" where
  "validation_response errs =
     \<lparr>status_code = 422, body = JObj [(''detail'', JArr (map error_json errs))]\<rparr>"

definition missing :: "string list \<Rightarrow> json \<Rightarrow> validation_error" where
  "missing l v =
     \<lparr>err_type = ''missing'', loc = l, msg = ''Field required'', input = v, ctx = []\<rparr>"

definition string_type :: "string list \<Rightarrow> json \<Rightarrow> validation_error" where
  "string_type l v =
     \<lparr>err_type = ''string_type'', loc = l, msg = ''Input should be a valid string'',
      input = v, ctx = []\<rparr>"

text \<open>The constraints of \<open>UserRegister\<close> in \<open>schemas.py\<close>, field by field.\<close>

definition email_errors :: "deps \<Rightarrow> string \<Rightarrow> validation_error list" where
  "email_errors D s =
     (if EmailStr D s = None
      then [\<lparr>err_type = ''value_error'', loc = [''body'', ''email''],
             msg = ''value is not a valid email address: '' @ EmailStr_reason D s,
             input = JStr s, ctx = [(''reason'', JStr (EmailStr_reason D s))]\<rparr>]
      else [])"

definition username_errors :: "string \<Rightarrow> validation_error list" where
  "username_errors s =
     (if length s < 3
      then [\<lparr>err_type = ''string_too_short'', loc = [''body'', ''username''],
             msg = ''String should have at least 3 characters'',
             input = JStr s, ctx = [(''min_length'', JInt 3)]\<rparr>]
      else if 50 < length s
      then [\<lparr>err_type = ''string_too_long'', loc = [''body'', ''username''],
             msg = ''String should have at most 50 characters'',
             input = JStr s, ctx = [(''max_length'', JInt 50)]\<rparr>]
      else [])"

definition password_errors :: "string \<Rightarrow> validation_error list" where
  "password_errors s =
     (if length s < 8
      then [\<lparr>err_type = ''string_too_short'', loc = [''body'', ''password''],
             msg = ''String should have at least 8 characters'',
             input = JStr s, ctx = [(''min_length'', JInt 8)]\<rparr>]
      else [])"

section \<open>Register\<close>

text \<open>
  The request model \<open>UserRegister\<close> of \<open>schemas.py\<close> on a body whose four fields
  are strings: every field is checked and the errors are collected; the validated
  request carries the address as \<open>EmailStr\<close> returns it.
\<close>

definition UserRegister_validate ::
  "deps \<Rightarrow> UserRegister \<Rightarrow> validation_error list + UserRegister" where
  "UserRegister_validate D raw =
     (let errors =
            email_errors D (UserRegister.email raw) @
            username_errors (UserRegister.username raw) @
            password_errors (UserRegister.password raw)
      in if errors \<noteq> [] then Inl errors
         else Inr (raw\<lparr>UserRegister.email :=
                          or_default (EmailStr D (UserRegister.email raw))
                            (UserRegister.email raw)\<rparr>))"

text \<open>
  \<open>db.add\<close>, \<open>db.commit\<close>, \<open>db.refresh\<close> for a new user: the commit inserts the
  row (and raises when the table has the uniqueness constraint and it is violated),
  the refresh reads back the columns the store filled in.

  Modelled from the spec: the column defaults of \<open>models.py\<close> (identifier from
  the sequence, active flag true, creation time set by the server).
\<close>

definition taken :: "string \<Rightarrow> string \<Rightarrow> db \<Rightarrow> bool" where
  "taken e n d = (first_by_email e d \<noteq> None \<or> first_by_username n d \<noteq> None)"

definition commit_new_user ::
  "deps \<Rightarrow> datetime \<Rightarrow> string \<Rightarrow> string \<Rightarrow> string \<Rightarrow> string \<Rightarrow> db \<Rightarrow> exn + user \<times> db" where
  "commit_new_user D now e n h f d =
     (if unique_constraint D \<and> taken e n d then Inl IntegrityError
      else
        (let u = \<lparr>user.id' = next_id d, user.email = e, user.username = n,
                  hashed_password = h, user.full_name = f, user.is_active = True,
                  created_at = now\<rparr>
         in Inr (u, d\<lparr>rows := rows d @ [u], next_id := next_id d + 1\<rparr>)))"

text \<open>\<open>register\<close>, \<open>main.py\<close> lines 50 to 87. \<open>now\<close> is the server's clock.\<close>

definition register ::
  "deps \<Rightarrow> datetime \<Rightarrow> UserRegister \<Rightarrow> db \<Rightarrow> (exn + user) \<times> db \<times> event list" where
  "register D now user d =
     (let q1 = Query_first_by_email (UserRegister.email user);
          q2 = Query_first_by_username (UserRegister.username user) in
      if first_by_email (UserRegister.email user) d \<noteq> None
      then (Inl (HTTPException 409 ''Email already registered''), d, [q1])
      else if first_by_username (UserRegister.username user) d \<noteq> None
      then (Inl (HTTPException 409 ''Username already taken''), d, [q1, q2])
      else
        (let h = hash_password D (UserRegister.password user);
             calls = [q1, q2, Call_hash_password (UserRegister.password user), Db_add, Db_commit]
         in case commit_new_user D now (UserRegister.email user) (UserRegister.username user) h
                   (UserRegister.full_name user) d of
              Inl e \<Rightarrow> (Inl e, d, calls)
            | Inr (db_user, d') \<Rightarrow> (Inr db_user, d', calls @ [Db_refresh])))"

text \<open>\<open>response_model=UserResponse\<close> with \<open>from_attributes\<close>: the declared fields only.\<close>

definition UserResponse_from_attributes :: "user \<Rightarrow> UserResponse" where
  "UserResponse_from_attributes u =
     \<lparr>UserResponse.id' = user.id' u,
      UserResponse.email = user.email u,
      UserResponse.username = user.username u,
      UserResponse.full_name = user.full_name u,
      UserResponse.is_active = user.is_active u\<rparr>"

definition UserResponse_json :: "UserResponse \<Rightarrow> json" where
  "UserResponse_json r =
     JObj [(''id'', JInt (UserResponse.id' r)),
           (''email'', JStr (UserResponse.email r)),
           (''username'', JStr (UserResponse.username r)),
           (''full_name'', JStr (UserResponse.full_name r)),
           (''is_active'', JBool (UserResponse.is_active r))]"

text \<open>
  \<open>POST /register\<close>: validation of the body, then the handler, then the result
  rendered through \<open>response_model=UserResponse\<close> with status 201.
\<close>

definition post_register ::
  "deps \<Rightarrow> datetime \<Rightarrow> UserRegister \<Rightarrow> db \<Rightarrow> response \<times> db \<times> event list" where
  "post_register D now raw d =
     (case UserRegister_validate D raw of
        Inl errs \<Rightarrow> (validation_response errs, d, [Validate_body])
      | Inr user \<Rightarrow>
          (case register D now user d of
             (Inl e, d', calls) \<Rightarrow> (exception_response e, d', Validate_body # calls)
           | (Inr db_user, d', calls) \<Rightarrow>
               (\<lparr>status_code = 201,
                 body = UserResponse_json (UserResponse_from_attributes db_user)\<rparr>,
                d', Validate_body # calls)))"

section \<open>Listing and looking up users\<close>

text \<open>
  The rows as a query without \<open>order_by\<close> reads them: by their position in the
  engine's storage, rows at the same position in insertion order.
\<close>

definition table_scan :: "deps \<Rightarrow> db \<Rightarrow> user list" where
  "table_scan D d = sort_key (heap_position D) (rows d)"

text \<open>
  \<open>db.query(models.User).offset(skip).limit(limit).all()\<close>. An offset or limit
  that does not fit a signed 64-bit integer is refused; for a negative one the
  answer is the engine's.
\<close>

definition offset_limit_all :: "deps \<Rightarrow> int \<Rightarrow> int \<Rightarrow> db \<Rightarrow> exn + user list" where
  "offset_limit_all D skip limit d =
     (if 2 ^ 63 \<le> skip \<or> 2 ^ 63 \<le> limit then Inl DBAPIError
      else if skip < 0 \<or> limit < 0 then negative_window D skip limit (table_scan D d)
      else Inr (take (nat limit) (drop (nat skip) (table_scan D d))))"

definition user_public :: "user \<Rightarrow> json" where
  "user_public u =
     JObj [(''id'', JInt (user.id' u)),
           (''email'', JStr (user.email u)),
           (''username'', JStr (user.username u)),
           (''full_name'', JStr (user.full_name u)),
           (''created_at'', JDateTime (created_at u))]"

text \<open>\<open>get_all_users\<close>, \<open>main.py\<close> lines 128 to 151.\<close>

definition get_all_users :: "deps \<Rightarrow> int \<Rightarrow> int \<Rightarrow> db \<Rightarrow> (exn + json) \<times> event list" where
  "get_all_users D skip limit d =
     (case offset_limit_all D skip limit d of
        Inl e \<Rightarrow> (Inl e, [Query_offset_limit_all skip limit])
      | Inr users \<Rightarrow>
          (Inr (JObj [(''total'', JInt (int (length (rows d)))),
                      (''showing'', JInt (int (length users))),
                      (''users'', JArr (map user_public users))]),
           [Query_offset_limit_all skip limit, Query_count]))"

text \<open>
  \<open>GET /users\<close>: a query parameter that is absent takes the default of the
  handler's signature, \<open>skip: int = 0, limit: int = 10\<close>.
\<close>

definition get_users ::
  "deps \<Rightarrow> int option \<Rightarrow> int option \<Rightarrow> db \<Rightarrow> response \<times> event list" where
  "get_users D skip limit d =
     (case get_all_users D (or_default skip 0) (or_default limit 10) d of
        (Inl e, calls) \<Rightarrow> (exception_response e, calls)
      | (Inr j, calls) \<Rightarrow> (\<lparr>status_code = 200, body = j\<rparr>, calls))"

text \<open>\<open>get_user_by_username\<close>, \<open>main.py\<close> lines 153 to 164.\<close>

definition get_user_by_username :: "string \<Rightarrow> db \<Rightarrow> exn + user" where
  "get_user_by_username name d =
     (case first_by_username name d of
        None \<Rightarrow> Inl (HTTPException 404 ''User not found'')
      | Some user \<Rightarrow> Inr user)"

definition get_user :: "string \<Rightarrow> db \<Rightarrow> response" where
  "get_user name d =
     (case get_user_by_username name d of
        Inl e \<Rightarrow> exception_response e
      | Inr user \<Rightarrow>
          \<lparr>status_code = 200,
           body = UserResponse_json (UserResponse_from_attributes user)\<rparr>)"

definition json_field :: "string \<Rightarrow> json \<Rightarrow> json option" where
  "json_field k j = (case j of JObj kvs \<Rightarrow> map_of kvs k | _ \<Rightarrow> None)"

section \<open>Requests as the client sends them\<close>

text \<open>
  The body of a request is any JSON value. A field is read from an object by its
  key, the last occurrence of a repeated key; keys the model does not declare are
  ignored.
\<close>

definition body_field :: "string \<Rightarrow> json \<Rightarrow> json option" where
  "body_field k b = (case b of JObj kvs \<Rightarrow> map_of (rev kvs) k | _ \<Rightarrow> None)"

text \<open>
  The errors of one string field of a body that is an object: the field is
  required, it must be a string, and then its own constraints apply.
\<close>

definition str_field_errors ::
  "string \<Rightarrow> (string \<Rightarrow> validation_error list) \<Rightarrow> json \<Rightarrow> validation_error list" where
  "str_field_errors k check b =
     (case body_field k b of
        None \<Rightarrow> [missing [''body'', k] b]
      | Some (JStr s) \<Rightarrow> check s
      | Some v \<Rightarrow> [string_type [''body'', k] v])"

text \<open>The errors of a body that is no object at all.\<close>

definition not_an_object :: "json \<Rightarrow> validation_error list" where
  "not_an_object b =
     (if b = JNull then [missing [''body''] b]
      else [\<lparr>err_type = ''model_attributes_type'', loc = [''body''],
             msg = ''Input should be a valid dictionary or object to extract fields from'',
             input = b, ctx = []\<rparr>])"

definition is_object :: "json \<Rightarrow> bool" where
  "is_object b = (case b of JObj kvs \<Rightarrow> True | _ \<Rightarrow> False)"

text \<open>The body read at the types of \<open>UserRegister\<close>, when its four fields are strings.\<close>

definition UserRegister_of_body :: "json \<Rightarrow> UserRegister option" where
  "UserRegister_of_body b =
     (case (body_field ''email'' b, body_field ''username'' b,
            body_field ''password'' b, body_field ''full_name'' b) of
        (Some (JStr e), Some (JStr n), Some (JStr p), Some (JStr f)) \<Rightarrow>
          Some \<lparr>UserRegister.email = e, UserRegister.username = n,
                UserRegister.password = p, UserRegister.full_name = f\<rparr>
      | _ \<Rightarrow> None)"

definition UserRegister_body_errors :: "deps \<Rightarrow> json \<Rightarrow> validation_error list" where
  "UserRegister_body_errors D b =
     (if is_object b
      then str_field_errors ''email'' (email_errors D) b @
           str_field_errors ''username'' username_errors b @
           str_field_errors ''password'' password_errors b @
           str_field_errors ''full_name'' (\<lambda>s. []) b
      else not_an_object b)"








section \<open>Several requests\<close>

text \<open>
  The store after a sequence of register requests, each handled to its end before
  the next one starts, from the empty table.
\<close>

definition empty_db :: db where
  "empty_db = \<lparr>rows = [], next_id = 1\<rparr>"

fun registrations :: "deps \<Rightarrow> (datetime \<times> UserRegister) list \<Rightarrow> db \<Rightarrow> db" where
  "registrations D [] d = d"
| "registrations D ((now, raw) # reqs) d =
     registrations D reqs (fst (snd (post_register D now raw d)))"

text \<open>
  The handler \<open>register\<close> cut at its three accesses to the store: the e-mail
  query, the username query, and the insertion with its commit. Each access is one
  statement of the database; between two of them another request may run.
\<close>

datatype reg_pc =
    At_email_check
  | At_username_check
  | At_create
  | Returned "exn + user"

fun register_step ::
  "deps \<Rightarrow> datetime \<Rightarrow> UserRegister \<Rightarrow> reg_pc \<Rightarrow> db \<Rightarrow> reg_pc \<times> db" where
  "register_step D now user At_email_check d =
     (if first_by_email (UserRegister.email user) d \<noteq> None
      then (Returned (Inl (HTTPException 409 ''Email already registered'')), d)
      else (At_username_check, d))"
| "register_step D now user At_username_check d =
     (if first_by_username (UserRegister.username user) d \<noteq> None
      then (Returned (Inl (HTTPException 409 ''Username already taken'')), d)
      else (At_create, d))"
| "register_step D now user At_create d =
     (case commit_new_user D now (UserRegister.email user) (UserRegister.username user)
             (hash_password D (UserRegister.password user)) (UserRegister.full_name user) d of
        Inl e \<Rightarrow> (Returned (Inl e), d)
      | Inr (db_user, d') \<Rightarrow> (Returned (Inr db_user), d'))"
| "register_step D now user (Returned r) d = (Returned r, d)"

text \<open>
  Two register requests \<open>a\<close> and \<open>b\<close> running at once: the schedule says, step by
  step, which of the two makes its next access (\<open>False\<close> for \<open>a\<close>, \<open>True\<close> for
  \<open>b\<close>).
\<close>

fun interleave ::
  "deps \<Rightarrow> datetime \<Rightarrow> UserRegister \<Rightarrow> UserRegister \<Rightarrow> bool list \<Rightarrow>
   reg_pc \<times> reg_pc \<times> db \<Rightarrow> reg_pc \<times> reg_pc \<times> db" where
  "interleave D now a b [] s = s"
| "interleave D now a b (second # schedule) (pa, pb, d) =
     (if second
      then (case register_step D now b pb d of
              (pb', d') \<Rightarrow> interleave D now a b schedule (pa, pb', d'))
      else (case register_step D now a pa d of
              (pa', d') \<Rightarrow> interleave D now a b schedule (pa', pb, d')))"

text \<open>The status the client sees for a request that has returned.\<close>

fun returned_status :: "reg_pc \<Rightarrow> nat option" where
  "returned_status (Returned (Inl e)) = Some (status_code (exception_response e))"
| "returned_status (Returned (Inr u)) = Some 201"
| "returned_status _ = None"

section \<open>Credential hasher\<close>

text \<open>
  Modelled from the spec: \<open>auth.py\<close> (\<open>hash_password\<close>, \<open>verify_password\<close>) is
  not among the sources. The spec's hasher writes a self-describing string that
  holds the algorithm and the salt beside the digest; \<open>verify\<close> recomputes the
  digest and compares, and answers false for a string that is not of that form;
  \<open>hash\<close> fails with \<open>EncodingError\<close> on a password that is not valid text.
  The slow salted one-way function, the test for valid text and the algorithm's
  name are parameters; the fields are written one after the other, each behind a
  dollar sign.
\<close>

datatype hasher_error = EncodingError

record hasher =
  algorithm :: string
  is_text :: "string \<Rightarrow> bool"
  digest :: "string \<Rightarrow> string \<Rightarrow> string"

definition format_hash :: "string \<Rightarrow> string \<Rightarrow> string \<Rightarrow> string" where
  "format_hash a s dg = CHR ''$'' # a @ CHR ''$'' # s @ CHR ''$'' # dg"

definition split_field :: "string \<Rightarrow> (string \<times> string) option" where
  "split_field s =
     (if CHR ''$'' \<in> set s
      then Some (takeWhile (\<lambda>c. c \<noteq> CHR ''$'') s, tl (dropWhile (\<lambda>c. c \<noteq> CHR ''$'') s))
      else None)"

definition parse_hash :: "string \<Rightarrow> (string \<times> string \<times> string) option" where
  "parse_hash h =
     (case h of
        [] \<Rightarrow> None
      | c # r \<Rightarrow>
          if c \<noteq> CHR ''$'' then None
          else (case split_field r of
                  None \<Rightarrow> None
                | Some (a, r') \<Rightarrow>
                    (case split_field r' of
                       None \<Rightarrow> None
                     | Some (s, dg) \<Rightarrow> Some (a, s, dg))))"

definition hasher_hash :: "hasher \<Rightarrow> string \<Rightarrow> string \<Rightarrow> hasher_error + string" where
  "hasher_hash H salt pw =
     (if is_text H pw then Inr (format_hash (algorithm H) salt (digest H salt pw))
      else Inl EncodingError)"

definition hasher_verify :: "hasher \<Rightarrow> string \<Rightarrow> string \<Rightarrow> bool" where
  "hasher_verify H pw h =
     (case parse_hash h of
        None \<Rightarrow> False
      | Some (a, s, dg) \<Rightarrow> a = algorithm H \<and> digest H s pw = dg)"

section \<open>Token issuer\<close>

text \<open>
  Modelled from the spec: \<open>auth.py\<close> (\<open>create_access_token\<close> and the token
  verification the spec describes) is not among the sources. A token carries the
  claims with the issued-at and expiry times and a signature over them made with
  the server's secret; verification fails with \<open>InvalidToken\<close> when the
  signature is not the one the secret gives, or when the current time is past the
  expiry. The signing function is a parameter; the compact string encoding of the
  token is left out.
\<close>

datatype token_error = InvalidToken

record token =
  claims :: "(string \<times> json) list"
  issued_at :: datetime
  expires_at :: datetime
  signature :: string

record issuer =
  secret :: string
  sign :: "string \<Rightarrow> (string \<times> json) list \<times> datetime \<times> datetime \<Rightarrow> string"

definition issuer_issue :: "issuer \<Rightarrow> datetime \<Rightarrow> (string \<times> json) list \<Rightarrow> timedelta \<Rightarrow> token" where
  "issuer_issue I now data ttl =
     \<lparr>claims = data, issued_at = now, expires_at = now + ttl,
      signature = sign I (secret I) (data, now, now + ttl)\<rparr>"

definition issuer_verify ::
  "issuer \<Rightarrow> datetime \<Rightarrow> token \<Rightarrow> token_error + (string \<times> json) list" where
  "issuer_verify I now t =
     (if signature t \<noteq> sign I (secret I) (claims t, issued_at t, expires_at t)
      then Inl InvalidToken
      else if expires_at t < now then Inl InvalidToken
      else Inr (claims t))"

section \<open>Sample values\<close>

definition sample_settings :: "int \<Rightarrow> Settings" where
  "sample_settings m =
     \<lparr>APP_NAME = ''Simple Auth API'', APP_VERSION = ''1.0.0'', SECRET_KEY = ''k'',
      ALGORITHM = ''HS256'', ACCESS_TOKEN_EXPIRE_MINUTES = m, DATABASE_URL = ''db'',
      ENVIRONMENT = ''production'', DEBUG = False\<rparr>"

definition sample_deps :: "int \<Rightarrow> bool \<Rightarrow> deps" where
  "sample_deps m uniq =
     \<lparr>settings = sample_settings m,
      EmailStr = (\<lambda>e. if CHR ''@'' \<in> set e then Some e else None),
      hash_password = (\<lambda>p. ''h:'' @ p),
      verify_password = (\<lambda>p h. h = ''h:'' @ p),
      create_access_token = (\<lambda>s data ttl. ''t''),
      unique_constraint = uniq,
      negative_window = (\<lambda>skip limit us. Inl DBAPIError),
      heap_position = (\<lambda>u. 0),
      EmailStr_reason = (\<lambda>e. ''An email address must have an @-sign.''),
      parse_int = (\<lambda>s. if s = ''10'' then Some 10 else if s = ''0'' then Some 0 else None)\<rparr>"

definition sample_user :: "int \<Rightarrow> string \<Rightarrow> string \<Rightarrow> bool \<Rightarrow> user" where
  "sample_user i e n act =
     \<lparr>user.id' = i, user.email = e, user.username = n, hashed_password = ''h:secret12'',
      user.full_name = ''N'', user.is_active = act, created_at = 0\<rparr>"

definition sample_request :: "string \<Rightarrow> string \<Rightarrow> string \<Rightarrow> UserRegister" where
  "sample_request e n p =
     \<lparr>UserRegister.email = e, UserRegister.username = n, UserRegister.password = p,
      UserRegister.full_name = ''N''\<rparr>"

definition sample_hasher :: hasher where
  "sample_hasher = \<lparr>algorithm = ''x'', is_text = (\<lambda>p. True), digest = (\<lambda>s p. s @ p)\<rparr>"

text \<open>A hasher whose digest reads at most the first 72 characters of the password.\<close>

definition truncating_hasher :: hasher where
  "truncating_hasher =
     \<lparr>algorithm = ''x'', is_text = (\<lambda>p. True), digest = (\<lambda>s p. s @ take 72 p)\<rparr>"

definition sample_issuer :: issuer where
  "sample_issuer = \<lparr>secret = ''k'', sign = (\<lambda>k b. k)\<rparr>"

text \<open>The identifiers of the stored rows ascend strictly and lie below the next one.\<close>

definition ids_ascending :: "db \<Rightarrow> bool" where
  "ids_ascending d = (sorted_wrt (<) (map user.id' (rows d)) \<and> list_all (\<lambda>u. user.id' u < next_id d) (rows d))"

definition sample_db :: db where
  "sample_db = \<lparr>rows = [sample_user 1 ''a@x.org'' ''alice'' True,
                       sample_user 2 ''b@x.org'' ''bobby'' False], next_id = 3\<rparr>"

definition sample_login :: "string \<Rightarrow> string \<Rightarrow> UserLogin" where
  "sample_login n p = \<lparr>UserLogin.username = n, UserLogin.password = p\<rparr>"


definition sample_environ :: "int option \<Rightarrow> environ" where
  "sample_environ m =
     \<lparr>env_APP_NAME = None, env_APP_VERSION = None, env_SECRET_KEY = Some ''k'',
      env_ALGORITHM = None, env_ACCESS_TOKEN_EXPIRE_MINUTES = m,
      env_DATABASE_URL = Some ''db'', env_ENVIRONMENT = None, env_DEBUG = None\<rparr>"

definition moved_row_deps :: deps where
  "moved_row_deps = (sample_deps 1440 True)\<lparr>heap_position := (\<lambda>u. if user.id' u = 1 then 1 else 0)\<rparr>"

definition three_requests :: "(datetime \<times> UserRegister) list" where
  "three_requests =
     [(5, sample_request ''a@x.org'' ''alice'' ''secret12''),
      (6, sample_request ''b@x.org'' ''bobby'' ''secret34''),
      (7, sample_request ''c@x.org'' ''carol'' ''secret56'')]"

section \<open>Properties\<close>

lemma login_absent:
  "first_by_username (UserLogin.username c) d = None \<Longrightarrow>
   post_login D c d = \<lparr>status_code = 401, body = JObj [(''detail'', JStr ''Invalid username or password'')]\<rparr>"
  by (simp add: post_login_def login_def)

text \<open>
  Claim C1. For every login request: when no user has the given username, or the
  password does not verify against the stored hash, the answer is 401 with one and
  the same body in both cases; when the user exists and the password verifies but
  the account is inactive, the answer is 403; otherwise the answer is 200 with the
  token that \<open>create_access_token\<close> returned.
\<close>

theorem login_outcomes:
  fixes D :: deps and c :: UserLogin and d :: db
  defines "found \<equiv> first_by_username (UserLogin.username c) d"
  defines "unauthorized \<equiv> \<lparr>status_code = 401, body = JObj [(''detail'', JStr ''Invalid username or password'')]\<rparr>"
  shows "(found = None \<longrightarrow> post_login D c d = unauthorized)
    \<and> (\<forall>u. found = Some u \<and> \<not> verify_password D (UserLogin.password c) (hashed_password u)
          \<longrightarrow> post_login D c d = unauthorized)
    \<and> (\<forall>u. found = Some u \<and> verify_password D (UserLogin.password c) (hashed_password u)
             \<and> \<not> user.is_active u
          \<longrightarrow> post_login D c d =
               \<lparr>status_code = 403, body = JObj [(''detail'', JStr ''Account is disabled'')]\<rparr>)
    \<and> (\<forall>u. found = Some u \<and> verify_password D (UserLogin.password c) (hashed_password u)
             \<and> user.is_active u
          \<longrightarrow> post_login D c d =
               \<lparr>status_code = 200,
                body = JObj [(''access_token'',
                        JStr (create_access_token D (settings D)
                               [(''user_id'', JInt (user.id' u)), (''username'', JStr (user.username u))]
                               86400)),
                      (''token_type'', JStr ''bearer''),
                      (''message'', JStr (''Welcome back, '' @ user.username u @ ''!''))]\<rparr>)"
  unfolding found_def unauthorized_def
  by (simp add: post_login_def login_def Token_json_def timedelta_hours_def Let_def)


lemma sample_found [simp]:
  "first_by_username ''alice'' sample_db = Some (sample_user 1 ''a@x.org'' ''alice'' True)"
  "first_by_username ''bobby'' sample_db = Some (sample_user 2 ''b@x.org'' ''bobby'' False)"
  "first_by_username ''carol'' sample_db = None"
  by (simp_all add: first_by_username_def sample_db_def sample_user_def)

text \<open>
  The four outcomes of login on a store with an active and a disabled account.
\<close>

theorem login_outcomes_witness:
  "first_by_username ''carol'' sample_db = None
   \<and> status_code (post_login (sample_deps 1440 True) (sample_login ''carol'' ''secret12'') sample_db) = 401
   \<and> \<not> verify_password (sample_deps 1440 True) ''wrong'' ''h:secret12''
   \<and> post_login (sample_deps 1440 True) (sample_login ''alice'' ''wrong'') sample_db
       = post_login (sample_deps 1440 True) (sample_login ''carol'' ''secret12'') sample_db
   \<and> verify_password (sample_deps 1440 True) ''secret12'' ''h:secret12''
   \<and> status_code (post_login (sample_deps 1440 True) (sample_login ''bobby'' ''secret12'') sample_db) = 403
   \<and> status_code (post_login (sample_deps 1440 True) (sample_login ''alice'' ''secret12'') sample_db) = 200"
  using login_outcomes [of "sample_login ''carol'' ''secret12''" sample_db "sample_deps 1440 True"]
    login_outcomes [of "sample_login ''alice'' ''wrong''" sample_db "sample_deps 1440 True"]
    login_outcomes [of "sample_login ''bobby'' ''secret12''" sample_db "sample_deps 1440 True"]
    login_outcomes [of "sample_login ''alice'' ''secret12''" sample_db "sample_deps 1440 True"]
  by (simp add: sample_login_def sample_deps_def sample_user_def)

lemma UserRegister_validate_Inr:
  "UserRegister_validate D raw = Inr user \<longleftrightarrow>
     (\<exists>e. EmailStr D (UserRegister.email raw) = Some e
        \<and> 3 \<le> length (UserRegister.username raw)
        \<and> length (UserRegister.username raw) \<le> 50
        \<and> 8 \<le> length (UserRegister.password raw)
        \<and> user = raw\<lparr>UserRegister.email := e\<rparr>)"
  by (auto simp: UserRegister_validate_def email_errors_def username_errors_def
      password_errors_def or_default_def Let_def split: if_splits)

lemma commit_new_user_free:
  "first_by_email e d = None \<Longrightarrow> first_by_username n d = None \<Longrightarrow>
   commit_new_user D now e n h f d =
     Inr (\<lparr>user.id' = next_id d, user.email = e, user.username = n,
           hashed_password = h, user.full_name = f, user.is_active = True,
           created_at = now\<rparr>,
          d\<lparr>rows := rows d @ [\<lparr>user.id' = next_id d, user.email = e, user.username = n,
           hashed_password = h, user.full_name = f, user.is_active = True,
           created_at = now\<rparr>], next_id := next_id d + 1\<rparr>)"
  by (simp add: commit_new_user_def taken_def Let_def)

text \<open>
  Claim C2. For every register request the steps happen in this order: the body is
  validated (e-mail format, username of 3 to 50 characters, password of at least 8),
  and a body that fails is answered 422 before the store is read; then the e-mail
  address is looked up and a taken one is answered 409; then the username is looked
  up and a taken one is answered 409; then the password is hashed, the user is added,
  committed and refreshed, and the answer is 201 with the user's view, which has no
  hash. The last component of the result is the log of the calls made.
\<close>

theorem register_steps_in_order:
  fixes D :: deps and now :: datetime and raw :: UserRegister and d :: db
  shows
  "((\<exists>user. UserRegister_validate D raw = Inr user) \<longleftrightarrow>
      EmailStr D (UserRegister.email raw) \<noteq> None
      \<and> 3 \<le> length (UserRegister.username raw)
      \<and> length (UserRegister.username raw) \<le> 50
      \<and> 8 \<le> length (UserRegister.password raw))
   \<and> (\<forall>errs. UserRegister_validate D raw = Inl errs \<longrightarrow>
         post_register D now raw d = (validation_response errs, d, [Validate_body])
         \<and> status_code (validation_response errs) = 422)
   \<and> (\<forall>user. UserRegister_validate D raw = Inr user
              \<and> first_by_email (UserRegister.email user) d \<noteq> None \<longrightarrow>
         post_register D now raw d =
           (\<lparr>status_code = 409, body = JObj [(''detail'', JStr ''Email already registered'')]\<rparr>,
            d,
            [Validate_body, Query_first_by_email (UserRegister.email user)]))
   \<and> (\<forall>user. UserRegister_validate D raw = Inr user
              \<and> first_by_email (UserRegister.email user) d = None
              \<and> first_by_username (UserRegister.username user) d \<noteq> None \<longrightarrow>
         post_register D now raw d =
           (\<lparr>status_code = 409, body = JObj [(''detail'', JStr ''Username already taken'')]\<rparr>,
            d,
            [Validate_body, Query_first_by_email (UserRegister.email user),
             Query_first_by_username (UserRegister.username user)]))
   \<and> (\<forall>user. UserRegister_validate D raw = Inr user
              \<and> first_by_email (UserRegister.email user) d = None
              \<and> first_by_username (UserRegister.username user) d = None \<longrightarrow>
         post_register D now raw d =
           (\<lparr>status_code = 201,
             body = JObj [(''id'', JInt (next_id d)),
                          (''email'', JStr (UserRegister.email user)),
                          (''username'', JStr (UserRegister.username user)),
                          (''full_name'', JStr (UserRegister.full_name user)),
                          (''is_active'', JBool True)]\<rparr>,
            d\<lparr>rows := rows d @
                  [\<lparr>user.id' = next_id d,
                    user.email = UserRegister.email user,
                    user.username = UserRegister.username user,
                    hashed_password = hash_password D (UserRegister.password user),
                    user.full_name = UserRegister.full_name user,
                    user.is_active = True,
                    created_at = now\<rparr>],
              next_id := next_id d + 1\<rparr>,
            [Validate_body, Query_first_by_email (UserRegister.email user),
             Query_first_by_username (UserRegister.username user),
             Call_hash_password (UserRegister.password user),
             Db_add, Db_commit, Db_refresh]))"
proof (intro conjI allI impI)
  show "(\<exists>user. UserRegister_validate D raw = Inr user) \<longleftrightarrow>
      EmailStr D (UserRegister.email raw) \<noteq> None
      \<and> 3 \<le> length (UserRegister.username raw)
      \<and> length (UserRegister.username raw) \<le> 50
      \<and> 8 \<le> length (UserRegister.password raw)"
    by (auto simp: UserRegister_validate_Inr)
next
  fix errs assume "UserRegister_validate D raw = Inl errs"
  then show "post_register D now raw d = (validation_response errs, d, [Validate_body])"
    by (simp add: post_register_def)
next
  fix errs show "status_code (validation_response errs) = 422"
    by (simp add: validation_response_def)
next
  fix user
  assume "UserRegister_validate D raw = Inr user \<and> first_by_email (UserRegister.email user) d \<noteq> None"
  then show "post_register D now raw d =
           (\<lparr>status_code = 409, body = JObj [(''detail'', JStr ''Email already registered'')]\<rparr>,
            d, [Validate_body, Query_first_by_email (UserRegister.email user)])"
    by (simp add: post_register_def register_def)
next
  fix user
  assume "UserRegister_validate D raw = Inr user
              \<and> first_by_email (UserRegister.email user) d = None
              \<and> first_by_username (UserRegister.username user) d \<noteq> None"
  then show "post_register D now raw d =
           (\<lparr>status_code = 409, body = JObj [(''detail'', JStr ''Username already taken'')]\<rparr>,
            d,
            [Validate_body, Query_first_by_email (UserRegister.email user),
             Query_first_by_username (UserRegister.username user)])"
    by (simp add: post_register_def register_def)
next
  fix user
  assume "UserRegister_validate D raw = Inr user
              \<and> first_by_email (UserRegister.email user) d = None
              \<and> first_by_username (UserRegister.username user) d = None"
  then show "post_register D now raw d =
           (\<lparr>status_code = 201,
             body = JObj [(''id'', JInt (next_id d)),
                          (''email'', JStr (UserRegister.email user)),
                          (''username'', JStr (UserRegister.username user)),
                          (''full_name'', JStr (UserRegister.full_name user)),
                          (''is_active'', JBool True)]\<rparr>,
            d\<lparr>rows := rows d @
                  [\<lparr>user.id' = next_id d,
                    user.email = UserRegister.email user,
                    user.username = UserRegister.username user,
                    hashed_password = hash_password D (UserRegister.password user),
                    user.full_name = UserRegister.full_name user,
                    user.is_active = True,
                    created_at = now\<rparr>],
              next_id := next_id d + 1\<rparr>,
            [Validate_body, Query_first_by_email (UserRegister.email user),
             Query_first_by_username (UserRegister.username user),
             Call_hash_password (UserRegister.password user),
             Db_add, Db_commit, Db_refresh])"
    by (simp add: post_register_def register_def commit_new_user_free
        UserResponse_json_def UserResponse_from_attributes_def Let_def)
qed

lemma sample_validate:
  "UserRegister_validate (sample_deps m q) (sample_request ''c@x.org'' ''carol'' ''secret12'')
     = Inr (sample_request ''c@x.org'' ''carol'' ''secret12'')"
  "UserRegister_validate (sample_deps m q) (sample_request ''a@x.org'' ''bobby'' ''secret12'')
     = Inr (sample_request ''a@x.org'' ''bobby'' ''secret12'')"
  "UserRegister_validate (sample_deps m q) (sample_request ''c@x.org'' ''bobby'' ''secret12'')
     = Inr (sample_request ''c@x.org'' ''bobby'' ''secret12'')"
  "UserRegister_validate (sample_deps m q) (sample_request ''a@x.org'' ''al'' ''secret12'')
     = Inl (username_errors ''al'')"
  by (simp_all add: UserRegister_validate_def email_errors_def username_errors_def
      password_errors_def sample_deps_def sample_request_def or_default_def)

lemma sample_request_sel:
  "UserRegister.email (sample_request e n p) = e"
  "UserRegister.username (sample_request e n p) = n"
  "UserRegister.password (sample_request e n p) = p"
  "UserRegister.full_name (sample_request e n p) = ''N''"
  by (simp_all add: sample_request_def)

lemma sample_email_found:
  "first_by_email ''a@x.org'' sample_db = Some (sample_user 1 ''a@x.org'' ''alice'' True)"
  "first_by_email ''c@x.org'' sample_db = None"
  by (simp_all add: first_by_email_def sample_db_def sample_user_def)

text \<open>
  The four ways a register request ends, with the calls each one makes.
\<close>

theorem register_steps_in_order_witness:
  "snd (snd (post_register (sample_deps 1440 True) 7
          (sample_request ''a@x.org'' ''al'' ''secret12'') sample_db)) = [Validate_body]
   \<and> snd (snd (post_register (sample_deps 1440 True) 7
          (sample_request ''a@x.org'' ''bobby'' ''secret12'') sample_db))
      = [Validate_body, Query_first_by_email ''a@x.org'']
   \<and> snd (snd (post_register (sample_deps 1440 True) 7
          (sample_request ''c@x.org'' ''bobby'' ''secret12'') sample_db))
      = [Validate_body, Query_first_by_email ''c@x.org'', Query_first_by_username ''bobby'']
   \<and> snd (snd (post_register (sample_deps 1440 True) 7
          (sample_request ''c@x.org'' ''carol'' ''secret12'') sample_db))
      = [Validate_body, Query_first_by_email ''c@x.org'', Query_first_by_username ''carol'',
         Call_hash_password ''secret12'', Db_add, Db_commit, Db_refresh]"
  using
    register_steps_in_order [of "sample_deps 1440 True"
      "sample_request ''a@x.org'' ''al'' ''secret12''" 7 sample_db]
    register_steps_in_order [of "sample_deps 1440 True"
      "sample_request ''a@x.org'' ''bobby'' ''secret12''" 7 sample_db]
    register_steps_in_order [of "sample_deps 1440 True"
      "sample_request ''c@x.org'' ''bobby'' ''secret12''" 7 sample_db]
    register_steps_in_order [of "sample_deps 1440 True"
      "sample_request ''c@x.org'' ''carol'' ''secret12''" 7 sample_db]
  by (simp add: sample_validate sample_email_found sample_found sample_request_sel)

lemma find_append_last:
  "find P xs = None \<Longrightarrow> P x \<Longrightarrow> find P (xs @ [x]) = Some x"
  by (induction xs) (auto split: if_splits)

lemma register_same_email_again:
  assumes v1: "UserRegister_validate D raw1 = Inr user1"
    and ok: "status_code (fst (post_register D now1 raw1 d)) = 201"
    and d': "d' = fst (snd (post_register D now1 raw1 d))"
    and v2: "UserRegister_validate D raw2 = Inr user2"
    and same: "UserRegister.email user2 = UserRegister.email user1"
  shows "post_register D now2 raw2 d' =
           (\<lparr>status_code = 409, body = JObj [(''detail'', JStr ''Email already registered'')]\<rparr>,
            d', [Validate_body, Query_first_by_email (UserRegister.email user2)])"
proof -
  have e: "first_by_email (UserRegister.email user1) d = None"
    using v1 ok by (auto simp: post_register_def register_def Let_def split: if_splits)
  have n: "first_by_username (UserRegister.username user1) d = None"
    using v1 ok e by (auto simp: post_register_def register_def Let_def split: if_splits)
  have "first_by_email (UserRegister.email user1) d' \<noteq> None"
    using v1 e n d'
    by (simp add: post_register_def register_def commit_new_user_free Let_def
        first_by_email_def find_append_last)
  then show ?thesis
    using v2 same by (simp add: post_register_def register_def)
qed

lemma register_step_sequential:
  "interleave D now a b [False, False, False] (At_email_check, pb, d) =
     (Returned (fst (register D now a d)), pb, fst (snd (register D now a d)))"
  by (simp add: register_def Let_def split: sum.splits prod.splits)




text \<open>
  On a body whose four fields are strings, the errors of the body are those of the
  typed request: the two readings of the request model agree.
\<close>

lemma UserRegister_body_errors_typed:
  assumes "UserRegister_of_body b = Some raw"
  shows "UserRegister_body_errors D b =
           email_errors D (UserRegister.email raw) @
           username_errors (UserRegister.username raw) @
           password_errors (UserRegister.password raw)"
proof -
  from assms have f: "body_field ''email'' b = Some (JStr (UserRegister.email raw))"
      "body_field ''username'' b = Some (JStr (UserRegister.username raw))"
      "body_field ''password'' b = Some (JStr (UserRegister.password raw))"
      "body_field ''full_name'' b = Some (JStr (UserRegister.full_name raw))"
    by (auto simp: UserRegister_of_body_def split: option.splits json.splits)
  then have "is_object b"
    by (cases b) (simp_all add: body_field_def is_object_def)
  with f show ?thesis
    by (simp add: UserRegister_body_errors_def str_field_errors_def)
qed


lemma keys_UserResponse: "json_keys (UserResponse_json r) =
   [''id'', ''email'', ''username'', ''full_name'', ''is_active'']"
  by (simp add: UserResponse_json_def)

lemma keys_user_public: "json_keys (user_public u) =
   [''id'', ''email'', ''username'', ''full_name'', ''created_at'']"
  by (simp add: user_public_def)






















lemma ids_ascending_empty: "ids_ascending empty_db"
  by (simp add: ids_ascending_def empty_db_def)

lemma commit_new_user_ids:
  assumes a: "ids_ascending d" and c: "commit_new_user D now e n h f d = Inr (u, d')"
  shows "ids_ascending d'"
proof -
  from c have d': "rows d' = rows d @ [u]" "next_id d' = next_id d + 1" "user.id' u = next_id d"
    by (auto simp: commit_new_user_def Let_def split: if_splits)
  from a have s: "sorted_wrt (<) (map user.id' (rows d))"
    and b: "\<And>x. x \<in> set (rows d) \<Longrightarrow> user.id' x < next_id d"
    by (auto simp: ids_ascending_def list_all_iff)
  have "sorted_wrt (<) (map user.id' (rows d'))"
    using s b by (simp add: d' sorted_wrt_append)
  moreover have "list_all (\<lambda>x. user.id' x < next_id d') (rows d')"
    using b [THEN less_imp_le] by (simp add: d' list_all_iff)
  ultimately show ?thesis by (simp add: ids_ascending_def)
qed

lemma register_ids: "ids_ascending d \<Longrightarrow> ids_ascending (fst (snd (register D now user d)))"
  by (auto simp: register_def Let_def dest: commit_new_user_ids split: sum.splits)

lemma post_register_ids: "ids_ascending d \<Longrightarrow> ids_ascending (fst (snd (post_register D now raw d)))"
proof (cases "UserRegister_validate D raw")
  case (Inl errs)
  assume "ids_ascending d"
  with Inl show ?thesis by (simp add: post_register_def)
next
  case (Inr user)
  assume "ids_ascending d"
  with Inr register_ids [of d D now user] show ?thesis
    by (auto simp: post_register_def split: sum.splits prod.splits)
qed

lemma registrations_ids: "ids_ascending d \<Longrightarrow> ids_ascending (registrations D reqs d)"
  by (induction reqs arbitrary: d) (auto simp: post_register_ids)

text \<open>
  Claim C9, as amended. The endpoint hands \<open>skip\<close> and \<open>limit\<close> to the store as
  the caller gave them (or the defaults 0 and 10), whatever their sign. For
  \<open>skip\<close> and \<open>limit\<close> from 0 up to the 64-bit bound the store returns the rows
  from position \<open>skip\<close> on, at most \<open>limit\<close> of them, of the table as the
  engine reads it without an ordering: every row once, by storage position. That
  is insertion order when the engine keeps the rows in insertion order, and then,
  the identifiers ascending in insertion order, every page has strictly ascending
  identifiers. The identifiers ascend in insertion order in every store filled by
  register requests from the empty table.
\<close>

theorem list_window_of_table_scan:
  fixes D :: deps and d :: db
  shows "(\<forall>skip limit. hd (snd (get_users D skip limit d)) =
             Query_offset_limit_all (or_default skip 0) (or_default limit 10))
     \<and> (\<forall>skip limit. 0 \<le> skip \<and> skip < 2 ^ 63 \<and> 0 \<le> limit \<and> limit < 2 ^ 63 \<longrightarrow>
           offset_limit_all D skip limit d =
             Inr (take (nat limit) (drop (nat skip) (table_scan D d))))
     \<and> set (table_scan D d) = set (rows d)
     \<and> length (table_scan D d) = length (rows d)
     \<and> sorted (map (heap_position D) (table_scan D d))
     \<and> (sorted (map (heap_position D) (rows d)) \<longrightarrow> table_scan D d = rows d)
     \<and> (sorted (map (heap_position D) (rows d)) \<and> sorted_wrt (<) (map user.id' (rows d)) \<longrightarrow>
          (\<forall>skip limit.
             sorted_wrt (<) (map user.id' (take (nat limit) (drop (nat skip) (table_scan D d))))))
     \<and> (\<forall>reqs. sorted_wrt (<) (map user.id' (rows (registrations D reqs empty_db))))"
proof (intro conjI allI impI)
  fix skip limit
  show "hd (snd (get_users D skip limit d)) =
                Query_offset_limit_all (or_default skip 0) (or_default limit 10)"
    by (simp add: get_users_def get_all_users_def split: sum.splits)
next
  fix skip limit :: int
  assume "0 \<le> skip \<and> skip < 2 ^ 63 \<and> 0 \<le> limit \<and> limit < 2 ^ 63"
  then show "offset_limit_all D skip limit d =
      Inr (take (nat limit) (drop (nat skip) (table_scan D d)))"
    by (simp add: offset_limit_all_def)
next
  show "set (table_scan D d) = set (rows d)" by (simp add: table_scan_def)
  show "length (table_scan D d) = length (rows d)" by (simp add: table_scan_def)
  show "sorted (map (heap_position D) (table_scan D d))" by (simp add: table_scan_def)
next
  assume "sorted (map (heap_position D) (rows d))"
  then show "table_scan D d = rows d"
    by (simp add: table_scan_def sort_key_id_if_sorted)
next
  fix skip limit :: int
  assume a: "sorted (map (heap_position D) (rows d)) \<and> sorted_wrt (<) (map user.id' (rows d))"
  then have "table_scan D d = rows d"
    by (simp add: table_scan_def sort_key_id_if_sorted)
  moreover from a have "sorted_wrt (<) (take (nat limit) (drop (nat skip) (map user.id' (rows d))))"
    by (intro sorted_wrt_take sorted_wrt_drop) simp
  ultimately show "sorted_wrt (<) (map user.id' (take (nat limit) (drop (nat skip) (table_scan D d))))"
    by (simp add: take_map drop_map)
next
  fix reqs
  have "ids_ascending (registrations D reqs empty_db)"
    by (rule registrations_ids [OF ids_ascending_empty])
  then show "sorted_wrt (<) (map user.id' (rows (registrations D reqs empty_db)))"
    by (simp add: ids_ascending_def)
qed

lemma sample_registrations:
  "rows (registrations (sample_deps 1440 True) three_requests empty_db)
     = [\<lparr>user.id' = 1, user.email = ''a@x.org'', user.username = ''alice'',
          hashed_password = ''h:secret12'', user.full_name = ''N'', user.is_active = True, created_at = 5\<rparr>,
        \<lparr>user.id' = 2, user.email = ''b@x.org'', user.username = ''bobby'',
          hashed_password = ''h:secret34'', user.full_name = ''N'', user.is_active = True, created_at = 6\<rparr>,
        \<lparr>user.id' = 3, user.email = ''c@x.org'', user.username = ''carol'',
          hashed_password = ''h:secret56'', user.full_name = ''N'', user.is_active = True, created_at = 7\<rparr>]"
  by (simp add: three_requests_def post_register_def register_def UserRegister_validate_def
      email_errors_def username_errors_def password_errors_def commit_new_user_def
      taken_def first_by_email_def first_by_username_def sample_deps_def sample_request_def
      empty_db_def or_default_def Let_def)

lemma registrations_heap_position:
  "registrations (D\<lparr>heap_position := f\<rparr>) reqs d = registrations D reqs d"
  by (induction reqs arbitrary: d)
     (auto simp: post_register_def register_def UserRegister_validate_def email_errors_def
        commit_new_user_def Let_def split: sum.splits)

text \<open>
  Claim C9 as stated fails on both counts: with the first of three registered rows
  moved behind the others in the engine's storage, the list returns the users 2, 3,
  1; and a request with \<open>skip=-1\<close> is accepted and the store is queried with the
  offset \<open>-1\<close>.
\<close>

theorem list_order_and_sign_counterexample:
  "map user.id' (projr (offset_limit_all moved_row_deps 0 10
        (registrations moved_row_deps three_requests empty_db))) = [2, 3, 1]
   \<and> snd (get_users (sample_deps 1440 True) (Some (- 1)) None sample_db)
       = [Query_offset_limit_all (- 1) 10]"
proof -
  have "table_scan moved_row_deps (registrations moved_row_deps three_requests empty_db)
      = sort_key (\<lambda>u. if user.id' u = 1 then 1 else (0::int))
          (rows (registrations (sample_deps 1440 True) three_requests empty_db))"
    by (simp add: table_scan_def moved_row_deps_def registrations_heap_position)
  then have "map user.id' (projr (offset_limit_all moved_row_deps 0 10
        (registrations moved_row_deps three_requests empty_db))) = [2, 3, 1]"
    by (simp add: offset_limit_all_def sample_registrations)
  moreover have "snd (get_users (sample_deps 1440 True) (Some (- 1)) None sample_db)
       = [Query_offset_limit_all (- 1) 10]"
    by (simp add: get_users_def get_all_users_def offset_limit_all_def or_default_def sample_deps_def)
  ultimately show ?thesis by (rule conjI)
qed

text \<open>
  Three registrations, then \<open>skip=1\<close>, \<open>limit=2\<close>: the users 2 and 3.
\<close>

theorem list_window_of_table_scan_witness:
  "sorted (map (heap_position (sample_deps 1440 True))
       (rows (registrations (sample_deps 1440 True) three_requests empty_db)))
   \<and> sorted_wrt (<) (map user.id'
       (rows (registrations (sample_deps 1440 True) three_requests empty_db)))
   \<and> (0::int) \<le> 1 \<and> (1::int) < 2 ^ 63 \<and> (0::int) \<le> 2 \<and> (2::int) < 2 ^ 63
   \<and> map user.id'
       (projr (offset_limit_all (sample_deps 1440 True) 1 2
         (registrations (sample_deps 1440 True) three_requests empty_db))) = [2, 3]"
proof -
  note T = list_window_of_table_scan [of "sample_deps 1440 True"
      "registrations (sample_deps 1440 True) three_requests empty_db"]
  have p: "heap_position (sample_deps 1440 True) = (\<lambda>u. 0)"
    by (simp add: sample_deps_def)
  have h: "sorted (map (heap_position (sample_deps 1440 True))
       (rows (registrations (sample_deps 1440 True) three_requests empty_db)))"
    unfolding p sample_registrations by simp
  have i: "sorted_wrt (<) (map user.id'
       (rows (registrations (sample_deps 1440 True) three_requests empty_db)))"
    using T [THEN conjunct2, THEN conjunct2, THEN conjunct2, THEN conjunct2, THEN conjunct2,
        THEN conjunct2, THEN conjunct2, rule_format, of three_requests] .
  have r: "(0::int) \<le> 1 \<and> (1::int) < 2 ^ 63 \<and> (0::int) \<le> 2 \<and> (2::int) < 2 ^ 63"
    by simp
  have s: "table_scan (sample_deps 1440 True)
        (registrations (sample_deps 1440 True) three_requests empty_db)
      = rows (registrations (sample_deps 1440 True) three_requests empty_db)"
    using T [THEN conjunct2, THEN conjunct2, THEN conjunct2, THEN conjunct2, THEN conjunct2,
        THEN conjunct1, rule_format, OF h] .
  have w: "offset_limit_all (sample_deps 1440 True) 1 2
         (registrations (sample_deps 1440 True) three_requests empty_db)
      = Inr (take (nat 2) (drop (nat 1) (table_scan (sample_deps 1440 True)
         (registrations (sample_deps 1440 True) three_requests empty_db))))"
    using T [THEN conjunct2, THEN conjunct1, rule_format, OF r] .
  have "map user.id'
       (projr (offset_limit_all (sample_deps 1440 True) 1 2
         (registrations (sample_deps 1440 True) three_requests empty_db))) = [2, 3]"
    by (simp add: w s sample_registrations)
  with h i r show ?thesis by simp
qed

lemma created_is_user_view: "status_code (fst (post_register D now raw d)) = 201 \<Longrightarrow>
   \<exists>u. fst (post_register D now raw d) =
         \<lparr>status_code = 201, body = UserResponse_json (UserResponse_from_attributes u)\<rparr>"
  by (auto simp: post_register_def register_def validation_response_def Let_def
      commit_new_user_free split: sum.splits prod.splits if_splits)

text \<open>
  Claim C10. The body of a successful register and of a successful
  get-by-username has exactly the fields \<open>id\<close>, \<open>email\<close>, \<open>username\<close>,
  \<open>full_name\<close>, \<open>is_active\<close>, the last with the stored flag and no
  \<open>created_at\<close>; an entry of the users list has \<open>id\<close>, \<open>email\<close>,
  \<open>username\<close>, \<open>full_name\<close>, \<open>created_at\<close> and no \<open>is_active\<close>.
\<close>

theorem user_view_fields:
  "(status_code (fst (post_register D now raw d)) = 201 \<longrightarrow>
      json_keys (body (fst (post_register D now raw d))) =
        [''id'', ''email'', ''username'', ''full_name'', ''is_active''])
   \<and> (\<forall>u. first_by_username name d = Some u \<longrightarrow>
         get_user name d =
           \<lparr>status_code = 200,
             body = JObj [(''id'', JInt (user.id' u)),
                          (''email'', JStr (user.email u)),
                          (''username'', JStr (user.username u)),
                          (''full_name'', JStr (user.full_name u)),
                          (''is_active'', JBool (user.is_active u))]\<rparr>)
   \<and> (\<forall>u. json_keys (user_public u) =
         [''id'', ''email'', ''username'', ''full_name'', ''created_at''])"
proof (intro conjI allI impI)
  assume "status_code (fst (post_register D now raw d)) = 201"
  from created_is_user_view [OF this]
  show "json_keys (body (fst (post_register D now raw d))) =
        [''id'', ''email'', ''username'', ''full_name'', ''is_active'']"
    by (auto simp: keys_UserResponse)
next
  fix u assume "first_by_username name d = Some u"
  then show "get_user name d =
           \<lparr>status_code = 200,
             body = JObj [(''id'', JInt (user.id' u)),
                          (''email'', JStr (user.email u)),
                          (''username'', JStr (user.username u)),
                          (''full_name'', JStr (user.full_name u)),
                          (''is_active'', JBool (user.is_active u))]\<rparr>"
    by (simp add: get_user_def get_user_by_username_def UserResponse_json_def
        UserResponse_from_attributes_def)
next
  fix u show "json_keys (user_public u) =
         [''id'', ''email'', ''username'', ''full_name'', ''created_at'']"
    by (rule keys_user_public)
qed

text \<open>
  The view of a disabled account shows the flag and no creation time.
\<close>

theorem user_view_fields_witness:
  "first_by_username ''bobby'' sample_db = Some (sample_user 2 ''b@x.org'' ''bobby'' False)
   \<and> json_field ''is_active'' (body (get_user ''bobby'' sample_db)) = Some (JBool False)
   \<and> json_field ''created_at'' (body (get_user ''bobby'' sample_db)) = None
   \<and> status_code (fst (post_register (sample_deps 1440 True) 7
        (sample_request ''c@x.org'' ''carol'' ''secret12'') sample_db)) = 201
   \<and> json_keys (body (fst (post_register (sample_deps 1440 True) 7
        (sample_request ''c@x.org'' ''carol'' ''secret12'') sample_db)))
       = [''id'', ''email'', ''username'', ''full_name'', ''is_active'']"
proof -
  have s: "status_code (fst (post_register (sample_deps 1440 True) 7
        (sample_request ''c@x.org'' ''carol'' ''secret12'') sample_db)) = 201"
    by (simp add: post_register_def register_def sample_validate sample_request_sel
        sample_email_found sample_found commit_new_user_free Let_def)
  show ?thesis
    using s user_view_fields [of "sample_deps 1440 True" 7
        "sample_request ''c@x.org'' ''carol'' ''secret12''" sample_db "''bobby''"]
    by (simp add: sample_found sample_user_def json_field_def)
qed

lemma split_field_sep:
  "CHR ''$'' \<notin> set a \<Longrightarrow> split_field (a @ CHR ''$'' # r) = Some (a, r)"
proof -
  assume a: "CHR ''$'' \<notin> set a"
  then have "takeWhile (\<lambda>c. c \<noteq> CHR ''$'') (a @ CHR ''$'' # r) = a"
    by (induction a) auto
  moreover from a have "dropWhile (\<lambda>c. c \<noteq> CHR ''$'') (a @ CHR ''$'' # r) = CHR ''$'' # r"
    by (induction a) auto
  ultimately show ?thesis by (simp add: split_field_def)
qed

lemma parse_format_hash:
  "CHR ''$'' \<notin> set a \<Longrightarrow> CHR ''$'' \<notin> set s \<Longrightarrow>
   parse_hash (format_hash a s dg) = Some (a, s, dg)"
  by (simp add: parse_hash_def format_hash_def split_field_sep)

lemma hasher_verify_format:
  "CHR ''$'' \<notin> set (algorithm H) \<Longrightarrow> CHR ''$'' \<notin> set salt \<Longrightarrow>
   hasher_verify H w (format_hash (algorithm H) salt dg) \<longleftrightarrow> digest H salt w = dg"
  by (simp add: hasher_verify_def parse_format_hash)

text \<open>
  A digest whose values have a bounded length maps two different passwords to
  the same value.
\<close>

lemma bounded_digest_collides:
  assumes "\<And>p. length (digest H salt p) \<le> n"
  shows "\<exists>p w. p \<noteq> w \<and> digest H salt p = digest H salt w"
proof (rule ccontr)
  assume "\<not> (\<exists>p w. p \<noteq> w \<and> digest H salt p = digest H salt w)"
  then have i: "inj (digest H salt)"
    by (auto simp: inj_def)
  have "range (digest H salt) \<subseteq> {xs. set xs \<subseteq> UNIV \<and> length xs \<le> n}"
    using assms by auto
  moreover have "finite {xs :: string. set xs \<subseteq> UNIV \<and> length xs \<le> n}"
    by (rule finite_lists_length_le) simp
  ultimately have "finite (range (digest H salt))"
    by (rule finite_subset)
  with i have "finite (UNIV :: string set)"
    by (rule finite_imageD [rotated])
  then show False
    by (simp add: infinite_UNIV_listI)
qed

text \<open>
  Claim C3, as amended. For a password \<open>p\<close> that is valid text, \<open>hash\<close> succeeds
  and \<open>verify\<close> of \<open>p\<close> against the result is true; \<open>verify\<close> of a password
  \<open>w\<close> against it is true exactly when the digest of \<open>w\<close> under the salt of the
  hash is the digest of \<open>p\<close>, so it is false for every \<open>w\<close> whose digest
  differs. Neither the algorithm's name nor the salt holds the separator.
\<close>

theorem hasher_verify_hash:
  assumes valid: "is_text H p"
    and alg: "CHR ''$'' \<notin> set (algorithm H)"
    and salt: "CHR ''$'' \<notin> set salt"
  shows "\<exists>h. hasher_hash H salt p = Inr h
            \<and> hasher_verify H p h
            \<and> (\<forall>w. hasher_verify H w h \<longleftrightarrow> digest H salt w = digest H salt p)"
proof -
  let ?h = "format_hash (algorithm H) salt (digest H salt p)"
  have "hasher_hash H salt p = Inr ?h"
    using valid by (simp add: hasher_hash_def)
  moreover have "\<forall>w. hasher_verify H w ?h \<longleftrightarrow> digest H salt w = digest H salt p"
    using alg salt by (simp add: hasher_verify_format)
  ultimately show ?thesis by simp
qed

text \<open>
  Claim C3 as stated fails for a digest that reads only the first 72 characters of
  the password: two passwords that differ in the 73rd character verify against the
  same hash.
\<close>

theorem hasher_collision_counterexample:
  "replicate 72 (CHR ''a'') @ ''c'' \<noteq> replicate 72 (CHR ''a'') @ ''b''
   \<and> hasher_verify truncating_hasher (replicate 72 (CHR ''a'') @ ''c'')
       (projr (hasher_hash truncating_hasher ''na'' (replicate 72 (CHR ''a'') @ ''b'')))"
proof -
  have a: "CHR ''$'' \<notin> set (algorithm truncating_hasher)" and s: "CHR ''$'' \<notin> set ''na''"
    by (simp_all add: truncating_hasher_def)
  have "hasher_hash truncating_hasher ''na'' (replicate 72 (CHR ''a'') @ ''b'')
      = Inr (format_hash (algorithm truncating_hasher) ''na''
              (digest truncating_hasher ''na'' (replicate 72 (CHR ''a'') @ ''b'')))"
    by (simp add: hasher_hash_def truncating_hasher_def)
  moreover have "digest truncating_hasher ''na'' (replicate 72 (CHR ''a'') @ ''c'')
      = digest truncating_hasher ''na'' (replicate 72 (CHR ''a'') @ ''b'')"
    by (simp add: truncating_hasher_def)
  ultimately show ?thesis
    using hasher_verify_format [OF a s] by simp
qed

text \<open>
  A sample hasher whose digest is the salt followed by the password.
\<close>

theorem hasher_verify_hash_witness:
  "is_text sample_hasher ''secret12''
   \<and> CHR ''$'' \<notin> set (algorithm sample_hasher)
   \<and> CHR ''$'' \<notin> set ''na''
   \<and> hasher_hash sample_hasher ''na'' ''secret12'' = Inr ''$x$na$nasecret12''
   \<and> hasher_verify sample_hasher ''secret12'' ''$x$na$nasecret12''
   \<and> \<not> hasher_verify sample_hasher ''secret13'' ''$x$na$nasecret12''
   \<and> \<not> hasher_verify sample_hasher ''secret12'' ''nasecret12''"
proof -
  have h: "hasher_hash sample_hasher ''na'' ''secret12'' = Inr ''$x$na$nasecret12''"
    by (simp add: hasher_hash_def sample_hasher_def format_hash_def)
  have m: "\<not> hasher_verify sample_hasher ''secret12'' ''nasecret12''"
    by (simp add: hasher_verify_def parse_hash_def)
  from hasher_verify_hash [of sample_hasher "''secret12''" "''na''"] h m
  show ?thesis by (auto simp: sample_hasher_def)
qed

text \<open>
  Claim C7. With \<open>ACCESS_TOKEN_EXPIRE_MINUTES=30\<close> supplied by the environment and
  loaded into the settings (1800 seconds), login still asks
  \<open>create_access_token\<close> for a token of 86400 seconds: the lifetime is the
  literal of the handler, not the setting.
\<close>

theorem login_ignores_configured_lifetime:
  "Settings_init (sample_environ (Some 30)) = Some (settings (sample_deps 30 True))
   \<and> timedelta_minutes (ACCESS_TOKEN_EXPIRE_MINUTES (settings (sample_deps 30 True))) = 1800
   \<and> snd (login (sample_deps 30 True) (sample_login ''alice'' ''secret12'') sample_db)
      = [Query_first_by_username ''alice'',
         Call_verify_password ''secret12'' ''h:secret12'',
         Call_create_access_token [(''user_id'', JInt 1), (''username'', JStr ''alice'')] 86400]"
  by (simp add: Settings_init_def sample_environ_def sample_deps_def sample_settings_def
      or_default_def timedelta_minutes_def timedelta_hours_def login_def sample_login_def
      sample_found sample_user_def Let_def)

text \<open>
  For every value of the settings, a successful login ends with the call of
  \<open>create_access_token\<close> for 24 hours, no call in the log asks for another
  lifetime, and changing \<open>ACCESS_TOKEN_EXPIRE_MINUTES\<close> changes no call.
\<close>

lemma login_requests_24_hours:
  fixes D :: deps and c :: UserLogin and d :: db
  shows "(\<forall>t. fst (login D c d) = Inr t \<longrightarrow>
            (\<exists>data. last (snd (login D c d)) = Call_create_access_token data (timedelta_hours 24)
                \<and> access_token t = create_access_token D (settings D) data (timedelta_hours 24)))
         \<and> (\<forall>data ttl. Call_create_access_token data ttl \<in> set (snd (login D c d)) \<longrightarrow> ttl = 86400)
         \<and> (\<forall>m. snd (login (D\<lparr>settings := (settings D)\<lparr>ACCESS_TOKEN_EXPIRE_MINUTES := m\<rparr>\<rparr>) c d)
                 = snd (login D c d))"
  by (auto simp: login_def Let_def timedelta_hours_def split: option.splits if_splits)

text \<open>
  Claim C8. A token issued with a lifetime of 24 hours verifies at the moment of
  issue and yields its claims; its expiry is 86400 seconds after issue; verification
  of any token at a time past its expiry fails with \<open>InvalidToken\<close>, and so does
  verification of a token whose signature is not the one the secret gives.
\<close>

theorem token_lifetime:
  fixes I :: issuer and now :: datetime and data :: "(string \<times> json) list"
  defines "t \<equiv> issuer_issue I now data (timedelta_hours 24)"
  shows "issuer_verify I now t = Inr data
     \<and> expires_at t = now + 86400
     \<and> (\<forall>at. expires_at t < at \<longrightarrow> issuer_verify I at t = Inl InvalidToken)
     \<and> (\<forall>at t'. expires_at t' < at \<longrightarrow> issuer_verify I at t' = Inl InvalidToken)
     \<and> (\<forall>at t'. signature t' \<noteq> sign I (secret I) (claims t', issued_at t', expires_at t')
           \<longrightarrow> issuer_verify I at t' = Inl InvalidToken)"
  unfolding t_def
  by (simp add: issuer_verify_def issuer_issue_def timedelta_hours_def)

text \<open>
  A token issued at time 100: valid at once, invalid at 86501 and with another signature.
\<close>

theorem token_lifetime_witness:
  "issuer_verify sample_issuer 100 (issuer_issue sample_issuer 100 [(''user_id'', JInt 1)] (timedelta_hours 24))
     = Inr [(''user_id'', JInt 1)]
   \<and> expires_at (issuer_issue sample_issuer 100 [(''user_id'', JInt 1)] (timedelta_hours 24)) < 86501
   \<and> issuer_verify sample_issuer 86501
        (issuer_issue sample_issuer 100 [(''user_id'', JInt 1)] (timedelta_hours 24)) = Inl InvalidToken
   \<and> signature ((issuer_issue sample_issuer 100 [(''user_id'', JInt 1)] (timedelta_hours 24))\<lparr>signature := ''z''\<rparr>)
        \<noteq> sign sample_issuer (secret sample_issuer) ([(''user_id'', JInt 1)], 100, 86500)
   \<and> issuer_verify sample_issuer 100
        ((issuer_issue sample_issuer 100 [(''user_id'', JInt 1)] (timedelta_hours 24))\<lparr>signature := ''z''\<rparr>)
       = Inl InvalidToken"
  using token_lifetime [of sample_issuer 100 "[(''user_id'', JInt 1)]"]
  by (simp add: sample_issuer_def issuer_issue_def issuer_verify_def timedelta_hours_def)

text \<open>
  Claim C4. Two register requests with the same e-mail address (and different
  usernames, all of them free in the store) that run at once, each making its two
  look-ups before either inserts: the first is answered 201; the second is answered
  201 as well and the store holds the address twice when the table has no
  uniqueness constraint, and is answered 500 when it has one. In neither case is the
  second answered 409.
\<close>

theorem register_race:
  assumes same: "UserRegister.email b = UserRegister.email a"
    and other: "UserRegister.username b \<noteq> UserRegister.username a"
    and free_e: "first_by_email (UserRegister.email a) d = None"
    and free_a: "first_by_username (UserRegister.username a) d = None"
    and free_b: "first_by_username (UserRegister.username b) d = None"
  shows "map_prod returned_status (map_prod returned_status (\<lambda>d'. map user.email (rows d')))
           (interleave D now a b [False, True, False, True, False, True]
              (At_email_check, At_email_check, d))
         = (Some 201,
            Some (if unique_constraint D then 500 else 201),
            map user.email (rows d) @
              (if unique_constraint D then [UserRegister.email a]
               else [UserRegister.email a, UserRegister.email a]))"
proof -
  let ?ua = "\<lparr>user.id' = next_id d, user.email = UserRegister.email a,
               user.username = UserRegister.username a,
               hashed_password = hash_password D (UserRegister.password a),
               user.full_name = UserRegister.full_name a, user.is_active = True,
               created_at = now\<rparr>"
  let ?d1 = "d\<lparr>rows := rows d @ [?ua], next_id := next_id d + 1\<rparr>"
  have s1: "register_step D now a At_email_check d = (At_username_check, d)"
    and s2: "register_step D now b At_email_check d = (At_username_check, d)"
    and s3: "register_step D now a At_username_check d = (At_create, d)"
    and s4: "register_step D now b At_username_check d = (At_create, d)"
    using same free_e free_a free_b by simp_all
  have ins_a: "register_step D now a At_create d = (Returned (Inr ?ua), ?d1)"
    using free_e free_a by (simp add: commit_new_user_free)
  have taken_b: "taken (UserRegister.email b) (UserRegister.username b) ?d1"
    using same free_e by (simp add: taken_def first_by_email_def find_append_last)
  show ?thesis
  proof (cases "unique_constraint D")
    case True
    then have ins_b: "register_step D now b At_create ?d1 = (Returned (Inl IntegrityError), ?d1)"
      using taken_b by (simp add: commit_new_user_def)
    show ?thesis using True
      by (simp add: s1 s2 s3 s4 ins_a ins_b del: register_step.simps)
  next
    case False
    then have ins_b: "\<exists>ub. register_step D now b At_create ?d1 =
        (Returned (Inr ub), ?d1\<lparr>rows := rows ?d1 @ [ub], next_id := next_id ?d1 + 1\<rparr>)
        \<and> user.email ub = UserRegister.email a"
      using same by (simp add: commit_new_user_def Let_def)
    then obtain ub where ins_b': "register_step D now b At_create ?d1 =
        (Returned (Inr ub), ?d1\<lparr>rows := rows ?d1 @ [ub], next_id := next_id ?d1 + 1\<rparr>)"
      and ub: "user.email ub = UserRegister.email a"
      by blast
    show ?thesis using False ub
      by (simp add: s1 s2 s3 s4 ins_a ins_b' del: register_step.simps)
  qed
qed

text \<open>
  The race at a concrete input: two requests for \<open>a@x.org\<close> on the empty table,
  without and with the uniqueness constraint.
\<close>

theorem register_race_witness:
  "map_prod returned_status (map_prod returned_status (\<lambda>d. map user.email (rows d)))
     (interleave (sample_deps 1440 False) 0
        (sample_request ''a@x.org'' ''alice'' ''secret12'')
        (sample_request ''a@x.org'' ''alina'' ''secret34'')
        [False, True, False, True, False, True]
        (At_email_check, At_email_check, empty_db))
     = (Some 201, Some 201, [''a@x.org'', ''a@x.org''])
   \<and> map_prod returned_status (map_prod returned_status (\<lambda>d. map user.email (rows d)))
     (interleave (sample_deps 1440 True) 0
        (sample_request ''a@x.org'' ''alice'' ''secret12'')
        (sample_request ''a@x.org'' ''alina'' ''secret34'')
        [False, True, False, True, False, True]
        (At_email_check, At_email_check, empty_db))
     = (Some 201, Some 500, [''a@x.org''])"
proof -
  have e: "first_by_email ''a@x.org'' empty_db = None"
    and n: "first_by_username ''alice'' empty_db = None" "first_by_username ''alina'' empty_db = None"
    by (simp_all add: first_by_email_def first_by_username_def empty_db_def)
  have u: "sample_deps 1440 True = sample_deps 1440 True" ..
  note r = register_race [of "sample_request ''a@x.org'' ''alina'' ''secret34''"
      "sample_request ''a@x.org'' ''alice'' ''secret12''" empty_db _ 0, unfolded sample_request_sel,
      OF refl _ e n]
  have q: "unique_constraint (sample_deps 1440 True)" "\<not> unique_constraint (sample_deps 1440 False)"
    by (simp_all add: sample_deps_def)
  have r1: "map_prod returned_status (map_prod returned_status (\<lambda>d. map user.email (rows d)))
     (interleave (sample_deps 1440 False) 0
        (sample_request ''a@x.org'' ''alice'' ''secret12'')
        (sample_request ''a@x.org'' ''alina'' ''secret34'')
        [False, True, False, True, False, True]
        (At_email_check, At_email_check, empty_db))
     = (Some 201, Some 201, [''a@x.org'', ''a@x.org''])"
    using r [of "sample_deps 1440 False"] q by (simp add: empty_db_def)
  have r2: "map_prod returned_status (map_prod returned_status (\<lambda>d. map user.email (rows d)))
     (interleave (sample_deps 1440 True) 0
        (sample_request ''a@x.org'' ''alice'' ''secret12'')
        (sample_request ''a@x.org'' ''alina'' ''secret34'')
        [False, True, False, True, False, True]
        (At_email_check, At_email_check, empty_db))
     = (Some 201, Some 500, [''a@x.org''])"
    using r [of "sample_deps 1440 True"] q by (simp add: empty_db_def)
  from r1 r2 show ?thesis by (rule conjI)
qed

end
